theory Spec2Isabelle
  imports Main "HOL-Library.Word"
begin

unbundle bit_operations_syntax

section \<open>Go values\<close>

text \<open>
  A Go \<open>string\<close> and a Go \<open>[]byte\<close> are sequences of bytes; both are modelled as
  \<open>string\<close> (a list of 8-bit characters), so the conversion \<open>string(resolv)\<close> of the
  source is the identity. A \<open>net.IP\<close> is a byte slice whose bytes are read as numbers.
\<close>

type_synonym IP = "8 word list"

text \<open>
  A Go \<open>error\<close> value. \<open>OSError\<close> stands for whatever \<open>ioutil.ReadFile\<close> reports for a
  path, \<open>ReaderError\<close> for an error of an \<open>io.Reader\<close>, and \<open>InvalidNameserver i line\<close>
  for the value built by
  \<open>fmt.Errorf("line %v: invalid ip address of nameserver: %q", i, line)\<close>.
\<close>

datatype error =
    OSError string
  | ReaderError string
  | InvalidNameserver nat string

section \<open>The functions of the Go standard library that the source calls\<close>

subsection \<open>Package strings\<close>

definition HasPrefix :: "string \<Rightarrow> string \<Rightarrow> bool" where
  "HasPrefix s pre = (length pre \<le> length s \<and> take (length pre) s = pre)"

definition HasSuffix :: "string \<Rightarrow> string \<Rightarrow> bool" where
  "HasSuffix s suf = (length suf \<le> length s \<and> drop (length s - length suf) s = suf)"

definition TrimPrefix :: "string \<Rightarrow> string \<Rightarrow> string" where
  "TrimPrefix s pre = (if HasPrefix s pre then drop (length pre) s else s)"

text \<open>\<open>Index s substr\<close> is the byte index of the first instance of \<open>substr\<close> in \<open>s\<close>,
  or \<open>-1\<close> when there is none.\<close>

fun Index :: "string \<Rightarrow> string \<Rightarrow> int" where
  "Index [] substr = (if substr = [] then 0 else - 1)"
| "Index (c # cs) substr =
     (if HasPrefix (c # cs) substr then 0
      else (let i = Index cs substr in if i = - 1 then - 1 else i + 1))"

text \<open>
  \<open>Split s sep\<close> for a separator that is not empty, by the loop of \<open>genSplit\<close>: cut at
  the first instance of the separator, go on behind it. The source splits on
  \<open>"\n"\<close> only; for the empty separator Go cuts after each UTF-8 sequence, which is
  written here for single-byte characters and is never reached.
\<close>

lemma Index_bound:
  "0 \<le> Index s substr \<Longrightarrow> nat (Index s substr) + length substr \<le> length s"
proof (induction s)
  case Nil
  then show ?case by (simp split: if_splits)
next
  case (Cons c cs)
  show ?case
  proof (cases "HasPrefix (c # cs) substr")
    case True
    then show ?thesis by (simp add: HasPrefix_def)
  next
    case False
    with Cons show ?thesis by (simp add: Let_def split: if_splits)
  qed
qed

function Split :: "string \<Rightarrow> string \<Rightarrow> string list" where
  "Split s sep =
     (if sep = [] then map (\<lambda>c. [c]) s
      else (let m = Index s sep in
            if m < 0 then [s]
            else take (nat m) s # Split (drop (nat m + length sep) s) sep))"
  by pat_completeness auto
termination
proof (relation "measure (\<lambda>(s, sep). length s)")
  show "wf (measure (\<lambda>(s, sep). length s))" by simp
next
  fix s sep :: string and m :: int
  assume sep: "sep \<noteq> []" and m: "m = Index s sep" and nonneg: "\<not> m < 0"
  from m nonneg have "nat (Index s sep) + length sep \<le> length s"
    by (intro Index_bound) simp
  with sep have "0 < length s" by (cases s) auto
  with sep m show "((drop (nat m + length sep) s, sep), (s, sep)) \<in> measure (\<lambda>(s, sep). length s)"
    by simp
qed

declare Split.simps [simp del]

text \<open>
  \<open>TrimSpace\<close> removes leading and trailing white space as Unicode defines it
  (\<open>unicode.IsSpace\<close>). On a byte string that is: the six ASCII characters
  \<open>\t \n \v \f \r\<close> and the blank, and the UTF-8 encodings of U+0085, U+00A0, U+1680,
  U+2000 to U+200A, U+2028, U+2029, U+202F, U+205F and U+3000. No encoding in the list
  is a prefix or a suffix of another, so decoding the first (or the last) rune of a
  string gives a white-space rune exactly when the string starts (or ends) with one of
  these byte sequences.
\<close>

definition unicode_spaces :: "string list" where
  "unicode_spaces =
     [[CHR 0x09], [CHR 0x0A], [CHR 0x0B], [CHR 0x0C], [CHR 0x0D], [CHR 0x20],
      [CHR 0xC2, CHR 0x85], [CHR 0xC2, CHR 0xA0],
      [CHR 0xE1, CHR 0x9A, CHR 0x80],
      [CHR 0xE2, CHR 0x80, CHR 0x80], [CHR 0xE2, CHR 0x80, CHR 0x81],
      [CHR 0xE2, CHR 0x80, CHR 0x82], [CHR 0xE2, CHR 0x80, CHR 0x83],
      [CHR 0xE2, CHR 0x80, CHR 0x84], [CHR 0xE2, CHR 0x80, CHR 0x85],
      [CHR 0xE2, CHR 0x80, CHR 0x86], [CHR 0xE2, CHR 0x80, CHR 0x87],
      [CHR 0xE2, CHR 0x80, CHR 0x88], [CHR 0xE2, CHR 0x80, CHR 0x89],
      [CHR 0xE2, CHR 0x80, CHR 0x8A],
      [CHR 0xE2, CHR 0x80, CHR 0xA8], [CHR 0xE2, CHR 0x80, CHR 0xA9],
      [CHR 0xE2, CHR 0x80, CHR 0xAF],
      [CHR 0xE2, CHR 0x81, CHR 0x9F],
      [CHR 0xE3, CHR 0x80, CHR 0x80]]"

lemma unicode_spaces_nonempty: "w \<in> set unicode_spaces \<Longrightarrow> w \<noteq> []"
  by (auto simp: unicode_spaces_def)

lemma find_space_prefix:
  assumes "find (HasPrefix s) unicode_spaces = Some w"
  shows "0 < length w \<and> length w \<le> length s"
proof -
  from assms have "w \<in> set unicode_spaces" and "HasPrefix s w"
    by (auto simp: find_Some_iff)
  then show ?thesis
    using unicode_spaces_nonempty [of w] by (simp add: HasPrefix_def)
qed

lemma find_space_suffix:
  assumes "find (HasSuffix s) unicode_spaces = Some w"
  shows "0 < length w \<and> length w \<le> length s"
proof -
  from assms have "w \<in> set unicode_spaces" and "HasSuffix s w"
    by (auto simp: find_Some_iff)
  then show ?thesis
    using unicode_spaces_nonempty [of w] by (simp add: HasSuffix_def)
qed

function TrimLeftSpace :: "string \<Rightarrow> string" where
  "TrimLeftSpace s =
     (case find (HasPrefix s) unicode_spaces of
        None \<Rightarrow> s
      | Some w \<Rightarrow> TrimLeftSpace (drop (length w) s))"
  by pat_completeness auto
termination
proof (relation "measure length")
  show "wf (measure (length :: string \<Rightarrow> nat))" by simp
next
  fix s w :: string
  assume "find (HasPrefix s) unicode_spaces = Some w"
  then have "0 < length w \<and> length w \<le> length s" by (rule find_space_prefix)
  then show "(drop (length w) s, s) \<in> measure length" by (cases w) auto
qed

function TrimRightSpace :: "string \<Rightarrow> string" where
  "TrimRightSpace s =
     (case find (HasSuffix s) unicode_spaces of
        None \<Rightarrow> s
      | Some w \<Rightarrow> TrimRightSpace (take (length s - length w) s))"
  by pat_completeness auto
termination
proof (relation "measure length")
  show "wf (measure (length :: string \<Rightarrow> nat))" by simp
next
  fix s w :: string
  assume "find (HasSuffix s) unicode_spaces = Some w"
  then have "0 < length w \<and> length w \<le> length s" by (rule find_space_suffix)
  then show "(take (length s - length w) s, s) \<in> measure length" by (cases w) auto
qed

declare TrimLeftSpace.simps [simp del] TrimRightSpace.simps [simp del]

definition TrimSpace :: "string \<Rightarrow> string" where
  "TrimSpace s = TrimRightSpace (TrimLeftSpace s)"

subsection \<open>Package net: loopback addresses\<close>

definition IPv6loopback :: IP where
  "IPv6loopback = [0, 0, 0, 0, 0, 0, 0, 0, 0, 0, 0, 0, 0, 0, 0, 1]"

text \<open>\<open>To4\<close> gives the four bytes of an IPv4 address, also when it is stored in sixteen
  bytes behind the prefix \<open>::ffff:\<close>, and nil (\<open>None\<close>) for any other slice.\<close>

definition To4 :: "IP \<Rightarrow> IP option" where
  "To4 ip =
     (if length ip = 4 then Some ip
      else if length ip = 16 \<and> list_all (\<lambda>b. b = 0) (take 10 ip)
              \<and> ip ! 10 = 0xff \<and> ip ! 11 = 0xff
           then Some (drop 12 ip)
           else None)"

definition IsLoopback :: "IP \<Rightarrow> bool" where
  "IsLoopback ip =
     (case To4 ip of
        Some ip4 \<Rightarrow> ip4 ! 0 = 127
      | None \<Rightarrow> length ip = length IPv6loopback \<and> ip = IPv6loopback)"

subsection \<open>Package encoding/hex\<close>

definition hextable :: string where
  "hextable = ''0123456789abcdef''"

fun EncodeToString :: "8 word list \<Rightarrow> string" where
  "EncodeToString [] = []"
| "EncodeToString (v # vs) =
     hextable ! unat (drop_bit 4 v) # hextable ! unat (v AND 0x0f) # EncodeToString vs"

subsection \<open>Package crypto/sha256\<close>

text \<open>
  The digest that \<open>sha256.New\<close>, writes of all the bytes and \<open>Sum(nil)\<close> compute:
  SHA-256 as FIPS 180-4 defines it. The message is padded to a multiple of 64 bytes
  (the byte \<open>0x80\<close>, zeros, the bit length in 8 bytes), read as big-endian 32-bit
  words, and each block of 16 words is expanded to 64 and run through 64 rounds on
  eight working variables. The 64 round constants (the first 32 bits of the fractional
  parts of the cube roots of the first 64 primes) are written as decimal numbers.
\<close>

definition sha256_K :: "32 word list" where
  "sha256_K =
   [1116352408, 1899447441, 3049323471, 3921009573, 961987163, 1508970993,
    2453635748, 2870763221, 3624381080, 310598401, 607225278, 1426881987,
    1925078388, 2162078206, 2614888103, 3248222580, 3835390401, 4022224774,
    264347078, 604807628, 770255983, 1249150122, 1555081692, 1996064986,
    2554220882, 2821834349, 2952996808, 3210313671, 3336571891, 3584528711,
    113926993, 338241895, 666307205, 773529912, 1294757372, 1396182291,
    1695183700, 1986661051, 2177026350, 2456956037, 2730485921, 2820302411,
    3259730800, 3345764771, 3516065817, 3600352804, 4094571909, 275423344,
    430227734, 506948616, 659060556, 883997877, 958139571, 1322822218,
    1537002063, 1747873779, 1955562222, 2024104815, 2227730452, 2361852424,
    2428436474, 2756734187, 3204031479, 3329325298]"

type_synonym sha256_state =
  "32 word \<times> 32 word \<times> 32 word \<times> 32 word \<times> 32 word \<times> 32 word \<times> 32 word \<times> 32 word"

definition sha256_init :: sha256_state where
  "sha256_init =
     (0x6a09e667, 0xbb67ae85, 0x3c6ef372, 0xa54ff53a,
      0x510e527f, 0x9b05688c, 0x1f83d9ab, 0x5be0cd19)"

definition rotr :: "nat \<Rightarrow> 32 word \<Rightarrow> 32 word" where
  "rotr n x = drop_bit n x OR push_bit (32 - n) x"

definition sha256_pad :: "string \<Rightarrow> 8 word list" where
  "sha256_pad msg =
     (let n = length msg;
          zeros = (55 + 64 - n mod 64) mod 64;
          bits = (of_nat (8 * n) :: 64 word)
      in map of_char msg @ [0x80] @ replicate zeros 0
         @ map (\<lambda>i. ucast (drop_bit (8 * (7 - i)) bits)) [0..<8])"

fun be32 :: "8 word list \<Rightarrow> 32 word list" where
  "be32 (a # b # c # d # rest) =
     (push_bit 24 (ucast a) OR push_bit 16 (ucast b) OR push_bit 8 (ucast c) OR ucast d)
     # be32 rest"
| "be32 rest = []"

fun sha256_schedule :: "nat \<Rightarrow> 32 word list \<Rightarrow> 32 word list" where
  "sha256_schedule 0 w = w"
| "sha256_schedule (Suc n) w =
     (let t = length w;
          w15 = w ! (t - 15);
          w2 = w ! (t - 2);
          s0 = rotr 7 w15 XOR rotr 18 w15 XOR drop_bit 3 w15;
          s1 = rotr 17 w2 XOR rotr 19 w2 XOR drop_bit 10 w2
      in sha256_schedule n (w @ [w ! (t - 16) + s0 + w ! (t - 7) + s1]))"

fun sha256_round :: "sha256_state \<Rightarrow> 32 word \<times> 32 word \<Rightarrow> sha256_state" where
  "sha256_round (a, b, c, d, e, f, g, h) (k, w) =
     (let S1 = rotr 6 e XOR rotr 11 e XOR rotr 25 e;
          ch = (e AND f) XOR (NOT e AND g);
          t1 = h + S1 + ch + k + w;
          S0 = rotr 2 a XOR rotr 13 a XOR rotr 22 a;
          maj = (a AND b) XOR (a AND c) XOR (b AND c);
          t2 = S0 + maj
      in (t1 + t2, a, b, c, d + t1, e, f, g))"

fun sha256_add :: "sha256_state \<Rightarrow> sha256_state \<Rightarrow> sha256_state" where
  "sha256_add (a, b, c, d, e, f, g, h) (a', b', c', d', e', f', g', h') =
     (a + a', b + b', c + c', d + d', e + e', f + f', g + g', h + h')"

definition sha256_block :: "sha256_state \<Rightarrow> 32 word list \<Rightarrow> sha256_state" where
  "sha256_block st ws =
     sha256_add st (foldl sha256_round st (zip sha256_K (sha256_schedule 48 ws)))"

fun sha256_blocks :: "nat \<Rightarrow> sha256_state \<Rightarrow> 32 word list \<Rightarrow> sha256_state" where
  "sha256_blocks 0 st ws = st"
| "sha256_blocks (Suc n) st ws = sha256_blocks n (sha256_block st (take 16 ws)) (drop 16 ws)"

definition be_bytes :: "32 word \<Rightarrow> 8 word list" where
  "be_bytes w = [ucast (drop_bit 24 w), ucast (drop_bit 16 w), ucast (drop_bit 8 w), ucast w]"

definition Sum256 :: "string \<Rightarrow> 8 word list" where
  "Sum256 msg =
     (let ws = be32 (sha256_pad msg) in
      case sha256_blocks (length ws div 16) sha256_init ws of
        (a, b, c, d, e, f, g, h) \<Rightarrow>
          be_bytes a @ be_bytes b @ be_bytes c @ be_bytes d
          @ be_bytes e @ be_bytes f @ be_bytes g @ be_bytes h)"

subsection \<open>Readers\<close>

text \<open>
  An \<open>io.Reader\<close>, seen from \<open>io.Copy\<close>: the bytes it delivers and how it ends, at the
  end of the data (\<open>None\<close>) or with an error. \<open>bytes.NewReader\<close> makes a reader that
  delivers the slice and ends at its end.
\<close>

datatype reader = Reader string "error option"

definition NewReader :: "string \<Rightarrow> reader" where
  "NewReader b = Reader b None"

section \<open>The line parser of resolvconf.go\<close>

definition commentMark :: string where
  "commentMark = ''#''"

definition nameserverKey :: string where
  "nameserverKey = ''nameserver''"

definition optionKey :: string where
  "optionKey = ''option''"

text \<open>The body of the loop of \<open>getLines\<close>: what one line contributes.\<close>

definition stripLine :: "string \<Rightarrow> string \<Rightarrow> string" where
  "stripLine commentMarker currentLine =
     (let commentIndex = Index currentLine commentMarker;
          line = (if commentIndex \<noteq> - 1 then take (nat commentIndex) currentLine
                  else currentLine)
      in TrimSpace line)"

fun getLines_loop :: "string \<Rightarrow> string list \<Rightarrow> string list \<Rightarrow> string list" where
  "getLines_loop commentMarker [] output = output"
| "getLines_loop commentMarker (currentLine # rest) output =
     getLines_loop commentMarker rest (output @ [stripLine commentMarker currentLine])"

definition getLines :: "string \<Rightarrow> string \<Rightarrow> string list" where
  "getLines input commentMarker =
     (let lines = Split input [CHR 0x0A] in getLines_loop commentMarker lines [])"

text \<open>
  \<open>getNameservers\<close>: the loop runs over the lines with their index \<open>i\<close>, and returns
  from the function at the first line whose value is not an address. The result is
  Go's pair of a slice (\<open>None\<close> is the nil slice) and an error (\<open>None\<close> is nil).
  \<open>net.ParseIP\<close> is a parameter: it gives \<open>None\<close> where Go gives nil.
\<close>

fun getNameservers_loop ::
  "(string \<Rightarrow> IP option) \<Rightarrow> nat \<Rightarrow> string list \<Rightarrow> IP list \<Rightarrow> IP list option \<times> error option"
where
  "getNameservers_loop ParseIP i [] nameservers = (Some nameservers, None)"
| "getNameservers_loop ParseIP i (line # rest) nameservers =
     (if \<not> HasPrefix line nameserverKey
      then getNameservers_loop ParseIP (i + 1) rest nameservers
      else (let line' = TrimSpace (TrimPrefix line nameserverKey) in
            case ParseIP line' of
              None \<Rightarrow> (None, Some (InvalidNameserver i line'))
            | Some ip \<Rightarrow> getNameservers_loop ParseIP (i + 1) rest (nameservers @ [ip])))"

definition getNameservers ::
  "(string \<Rightarrow> IP option) \<Rightarrow> string \<Rightarrow> IP list option \<times> error option" where
  "getNameservers ParseIP resolvConf =
     getNameservers_loop ParseIP 0 (getLines resolvConf commentMark) []"

fun getOptions_loop :: "string list \<Rightarrow> string list \<Rightarrow> string list" where
  "getOptions_loop [] options = options"
| "getOptions_loop (line # rest) options =
     (if \<not> HasPrefix line optionKey then getOptions_loop rest options
      else (let line' = TrimSpace (TrimPrefix line nameserverKey) in
            getOptions_loop rest (options @ [line'])))"

definition getOptions :: "string \<Rightarrow> string list" where
  "getOptions resolvConf = getOptions_loop (getLines resolvConf commentMark) []"

section \<open>The process state and the file system\<close>

text \<open>
  The two package variables of the source, \<open>detectSystemdResolvConfOnce\<close> (the flag of
  the \<open>sync.Once\<close>: has the function run) and \<open>pathAfterSystemdDetection\<close>, and, as a
  record of the effects, the paths that were handed to \<open>ioutil.ReadFile\<close> so far.
\<close>

record state =
  detectSystemdResolvConfOnce :: bool
  pathAfterSystemdDetection :: string
  readFileCalls :: "string list"

definition defaultPath :: string where
  "defaultPath = ''/etc/resolv.conf''"

definition alternatePath :: string where
  "alternatePath = ''/run/systemd/resolve/resolv.conf''"

definition initState :: state where
  "initState =
     \<lparr>detectSystemdResolvConfOnce = False,
      pathAfterSystemdDetection = defaultPath,
      readFileCalls = []\<rparr>"

text \<open>
  The file system is a parameter \<open>fs\<close>: what \<open>ioutil.ReadFile\<close> returns for a path at
  the moment of the call, the bytes read and the error (\<open>None\<close> is nil).
\<close>

type_synonym filesystem = "string \<Rightarrow> string \<times> error option"

definition ReadFile :: "filesystem \<Rightarrow> string \<Rightarrow> state \<Rightarrow> (string \<times> error option) \<times> state" where
  "ReadFile fs path s = (fs path, s\<lparr>readFileCalls := readFileCalls s @ [path]\<rparr>)"

text \<open>\<open>sync.Once.Do\<close>: the function runs if no call of \<open>Do\<close> has run it before, and the
  flag is set when it returns.\<close>

definition Once_Do :: "(state \<Rightarrow> state) \<Rightarrow> state \<Rightarrow> state" where
  "Once_Do f s =
     (if detectSystemdResolvConfOnce s then s
      else (f s)\<lparr>detectSystemdResolvConfOnce := True\<rparr>)"

section \<open>Path\<close>

text \<open>The elements of a slice that may be nil: the nil slice has none.\<close>

definition elems :: "'a list option \<Rightarrow> 'a list" where
  "elems xs = (case xs of None \<Rightarrow> [] | Some l \<Rightarrow> l)"

text \<open>The function literal that \<open>Path\<close> hands to \<open>Do\<close>.\<close>

definition detectSystemdResolvConf ::
  "(string \<Rightarrow> IP option) \<Rightarrow> filesystem \<Rightarrow> state \<Rightarrow> state" where
  "detectSystemdResolvConf ParseIP fs s =
     (let ((candidateResolvConf, err), s1) = ReadFile fs defaultPath s in
      if err \<noteq> None then s1
      else (let (ns, err) = getNameservers ParseIP candidateResolvConf in
            if err \<noteq> None then s1
            else if length (elems ns) = 1 \<and> IsLoopback (elems ns ! 0)
                 then s1\<lparr>pathAfterSystemdDetection := alternatePath\<rparr>
                 else s1))"

definition Path :: "(string \<Rightarrow> IP option) \<Rightarrow> filesystem \<Rightarrow> state \<Rightarrow> string \<times> state" where
  "Path ParseIP fs s =
     (let s' = Once_Do (detectSystemdResolvConf ParseIP fs) s
      in (pathAfterSystemdDetection s', s'))"

section \<open>Reading a file\<close>

record File =
  Content :: string
  Hash :: string
  Nameservers :: "IP list option"
  Options :: "string list"

text \<open>
  \<open>hashData\<close>: \<open>io.Copy\<close> feeds the reader to the hash; an error of the reader is
  returned with the empty string.
\<close>

fun hashData :: "reader \<Rightarrow> string \<times> error option" where
  "hashData (Reader src (Some err)) = ([], Some err)"
| "hashData (Reader src None) = (''sha256:'' @ EncodeToString (Sum256 src), None)"

definition GetSpecific ::
  "(string \<Rightarrow> IP option) \<Rightarrow> filesystem \<Rightarrow> string \<Rightarrow> state
     \<Rightarrow> (File option \<times> error option) \<times> state" where
  "GetSpecific ParseIP fs path s =
     (let ((resolv, err), s1) = ReadFile fs path s in
      if err \<noteq> None then ((None, err), s1)
      else (let (hash, err) = hashData (NewReader resolv) in
            if err \<noteq> None then ((None, err), s1)
            else (let (nameservers, err) = getNameservers ParseIP resolv in
                  if err \<noteq> None then ((None, err), s1)
                  else (let options = getOptions resolv in
                        ((Some \<lparr>Content = resolv, Hash = hash,
                                 Nameservers = nameservers, Options = options\<rparr>,
                          None), s1)))))"

definition Get ::
  "(string \<Rightarrow> IP option) \<Rightarrow> filesystem \<Rightarrow> state
     \<Rightarrow> (File option \<times> error option) \<times> state" where
  "Get ParseIP fs s =
     (let (path, s1) = Path ParseIP fs s in GetSpecific ParseIP fs path s1)"

section \<open>Concurrent callers of Path\<close>

text \<open>
  Several goroutines call \<open>Path\<close>. A call is two steps: the call of \<open>Do\<close>, which
  returns only when the one run of the function literal is over (other callers wait
  on the mutex of the \<open>sync.Once\<close>), so its effect on the variables is one atomic
  step; then the read of \<open>pathAfterSystemdDetection\<close> for the value to return. The
  steps of different goroutines interleave in any order, and the file system may be
  another one at every step. \<open>returned\<close> collects the values the calls gave back.
\<close>

datatype pc = Idle | AfterDo

record process =
  vars :: state
  threads :: "nat \<Rightarrow> pc"
  returned :: "string list"

definition initProcess :: process where
  "initProcess = \<lparr>vars = initState, threads = (\<lambda>t. Idle), returned = []\<rparr>"

text \<open>The next step of goroutine \<open>t\<close>, the file system being \<open>fs\<close>.\<close>

definition step :: "(string \<Rightarrow> IP option) \<Rightarrow> process \<Rightarrow> nat \<times> filesystem \<Rightarrow> process" where
  "step ParseIP c ev =
     (let (t, fs) = ev in
      case threads c t of
        Idle \<Rightarrow>
          c\<lparr>vars := Once_Do (detectSystemdResolvConf ParseIP fs) (vars c),
            threads := (threads c)(t := AfterDo)\<rparr>
      | AfterDo \<Rightarrow>
          c\<lparr>threads := (threads c)(t := Idle),
            returned := returned c @ [pathAfterSystemdDetection (vars c)]\<rparr>)"

definition run :: "(string \<Rightarrow> IP option) \<Rightarrow> (nat \<times> filesystem) list \<Rightarrow> process \<Rightarrow> process" where
  "run ParseIP schedule c = foldl (step ParseIP) c schedule"

text \<open>The invariant of the interleaved calls: until the detection has run nothing was
  read and nothing returned; afterwards the default file was read once; and every value
  returned so far is the value of the variable.\<close>

definition pathInvariant :: "process \<Rightarrow> bool" where
  "pathInvariant c =
     ((if detectSystemdResolvConfOnce (vars c)
       then readFileCalls (vars c) = [defaultPath]
       else readFileCalls (vars c) = [] \<and> returned c = [] \<and> (\<forall>t. threads c t = Idle))
      \<and> list_all (\<lambda>p. p = pathAfterSystemdDetection (vars c)) (returned c))"

section \<open>The specification's wording, as definitions\<close>

text \<open>A line truncated at the first occurrence of the comment marker: the characters
  before the first position at which the marker starts.\<close>

fun cutAtMarker :: "string \<Rightarrow> string \<Rightarrow> string" where
  "cutAtMarker marker [] = []"
| "cutAtMarker marker (c # cs) =
     (if HasPrefix (c # cs) marker then [] else c # cutAtMarker marker cs)"

text \<open>One element per line of the text, in order: the line cut at the marker, then
  trimmed.\<close>

definition StripCommentsAndBlank :: "string \<Rightarrow> string \<Rightarrow> string list" where
  "StripCommentsAndBlank text' commentMarker =
     map (\<lambda>line. TrimSpace (cutAtMarker commentMarker line)) (Split text' [CHR 0x0A])"

text \<open>A nameserver line is one whose first ten characters are the keyword, whatever
  comes behind them; its value is the line without these ten characters, trimmed.\<close>

definition isNameserverLine :: "string \<Rightarrow> bool" where
  "isNameserverLine line = (take 10 line = ''nameserver'')"

definition nameserverValue :: "string \<Rightarrow> string" where
  "nameserverValue line = TrimSpace (drop 10 line)"

text \<open>The first nameserver line whose value is not an address, if there is one: its
  index, counted from \<open>i\<close>, and its value.\<close>

fun firstInvalid ::
  "(string \<Rightarrow> IP option) \<Rightarrow> nat \<Rightarrow> string list \<Rightarrow> (nat \<times> string) option" where
  "firstInvalid ParseIP i [] = None"
| "firstInvalid ParseIP i (line # rest) =
     (if isNameserverLine line \<and> ParseIP (nameserverValue line) = None
      then Some (i, nameserverValue line)
      else firstInvalid ParseIP (i + 1) rest)"

text \<open>The addresses of the nameserver lines, in the order of the lines.\<close>

definition nameserverEntries :: "(string \<Rightarrow> IP option) \<Rightarrow> string list \<Rightarrow> IP list" where
  "nameserverEntries ParseIP lines =
     List.map_filter
       (\<lambda>line. if isNameserverLine line then ParseIP (nameserverValue line) else None) lines"

text \<open>The decision the specification gives for the path: the default file can be
  read, its nameservers parse, and there is exactly one, a loopback address.\<close>

definition stubResolverOnly :: "(string \<Rightarrow> IP option) \<Rightarrow> filesystem \<Rightarrow> bool" where
  "stubResolverOnly ParseIP fs =
     (case fs defaultPath of
        (content, Some e) \<Rightarrow> False
      | (content, None) \<Rightarrow>
          (case getNameservers ParseIP content of
             (Some [ip], None) \<Rightarrow> IsLoopback ip
           | _ \<Rightarrow> False))"

section \<open>Instances of the parameters, and files to run the functions on\<close>

text \<open>
  An address parser to put in the place of \<open>net.ParseIP\<close> when the functions are run:
  the dotted-decimal form of IPv4 as Go reads it (four decimal fields of at most 255,
  no leading zero), returned in sixteen bytes as \<open>net.ParseIP\<close> returns it. IPv6 text
  is outside this instance. The theorems below hold for every parser.
\<close>

fun parseIPv4 :: "string \<Rightarrow> bool \<Rightarrow> 8 word list \<Rightarrow> nat \<Rightarrow> nat \<Rightarrow> 8 word list option" where
  "parseIPv4 [] prevDot flds val digLen =
     (if length flds < 3 then None else Some (flds @ [of_nat val]))"
| "parseIPv4 (c # cs) prevDot flds val digLen =
     (if 48 \<le> (of_char c :: nat) \<and> (of_char c :: nat) \<le> 57 then
        (if digLen = 1 \<and> val = 0 then None
         else (let val' = val * 10 + (of_char c - 48) in
               if val' > 255 then None
               else parseIPv4 cs False flds val' (digLen + 1)))
      else if c = CHR ''.'' then
        (if prevDot \<or> cs = [] then None
         else if length flds = 3 then None
         else parseIPv4 cs True (flds @ [of_nat val]) 0 0)
      else None)"

definition v4InV6Prefix :: IP where
  "v4InV6Prefix = [0, 0, 0, 0, 0, 0, 0, 0, 0, 0, 0xff, 0xff]"

definition ParseIP_dotted :: "string \<Rightarrow> IP option" where
  "ParseIP_dotted s = map_option (\<lambda>ip4. v4InV6Prefix @ ip4) (parseIPv4 s True [] 0 0)"

definition ip_8_8_8_8 :: IP where
  "ip_8_8_8_8 = [0, 0, 0, 0, 0, 0, 0, 0, 0, 0, 0xff, 0xff, 8, 8, 8, 8]"

definition ip_127_0_0_53 :: IP where
  "ip_127_0_0_53 = [0, 0, 0, 0, 0, 0, 0, 0, 0, 0, 0xff, 0xff, 127, 0, 0, 53]"

text \<open>The file of the specification's scenario: a nameserver, a comment, an option.\<close>

definition scenarioFile :: string where
  "scenarioFile =
     ''nameserver 8.8.8.8'' @ [CHR 0x0A] @ ''# comment'' @ [CHR 0x0A] @ ''option ndots:0''"

text \<open>A file system in which every path holds the given bytes, and one in which no
  file can be read.\<close>

definition fileWith :: "string \<Rightarrow> filesystem" where
  "fileWith content = (\<lambda>path. (content, None))"

definition noFile :: filesystem where
  "noFile = (\<lambda>path. ([], Some (OSError path)))"

text \<open>A file whose second and third lines are nameserver lines with values that are
  not addresses, and a file without a nameserver line.\<close>

definition invalidFile :: string where
  "invalidFile =
     ''nameserver 8.8.8.8'' @ [CHR 0x0A] @ ''nameserver bogus # first'' @ [CHR 0x0A]
     @ ''nameserver 300.1.1.1''"

definition searchOnlyFile :: string where
  "searchOnlyFile = ''search example.com'' @ [CHR 0x0A] @ ''# nameserver 1.1.1.1''"


text \<open>The file that systemd-resolved leaves at the default path, and a file with a
  loopback and another nameserver.\<close>

definition stubFile :: string where
  "stubFile = ''# managed by systemd-resolved'' @ [CHR 0x0A] @ ''nameserver 127.0.0.53''"

definition twoServersFile :: string where
  "twoServersFile = ''nameserver 127.0.0.53'' @ [CHR 0x0A] @ ''nameserver 8.8.8.8''"

text \<open>
  A schedule of three goroutines that call \<open>Path\<close>. Goroutine 0 enters \<open>Do\<close> while the
  default file is the one of systemd-resolved; goroutine 1 makes its whole call while no
  file can be read; goroutine 0 reads the variable after the file has been replaced,
  and goroutine 2 calls twice.
\<close>

definition threeCallers :: "(nat \<times> filesystem) list" where
  "threeCallers =
     [(0, fileWith stubFile), (1, noFile), (1, noFile), (0, fileWith twoServersFile),
      (2, fileWith twoServersFile), (2, noFile), (2, noFile), (2, fileWith scenarioFile)]"

section \<open>Facts about the library functions\<close>

subsection \<open>Index, and cutting at the marker\<close>

lemma Index_range: "Index s substr = - 1 \<or> 0 \<le> Index s substr"
  by (induction s) (auto simp: Let_def)

lemma cutAtMarker_Index:
  "cutAtMarker marker line =
     (if Index line marker \<noteq> - 1 then take (nat (Index line marker)) line else line)"
proof (induction line)
  case Nil
  then show ?case by simp
next
  case (Cons c cs)
  show ?case
  proof (cases "HasPrefix (c # cs) marker")
    case True
    then show ?thesis by simp
  next
    case False
    from Index_range [of cs marker] show ?thesis
    proof
      assume "Index cs marker = - 1"
      with False Cons show ?thesis by simp
    next
      assume nonneg: "0 \<le> Index cs marker"
      then have "nat (Index cs marker + 1) = Suc (nat (Index cs marker))" by simp
      with nonneg False Cons show ?thesis by (simp add: Let_def)
    qed
  qed
qed

lemma cutAtMarker_first:
  "\<exists>rest. line = cutAtMarker marker line @ rest
      \<and> (rest = [] \<or> HasPrefix rest marker)
      \<and> (\<forall>k<length (cutAtMarker marker line). \<not> HasPrefix (drop k line) marker)"
proof (induction line)
  case Nil
  then show ?case by simp
next
  case (Cons c cs)
  show ?case
  proof (cases "HasPrefix (c # cs) marker")
    case True
    then show ?thesis by simp
  next
    case False
    from Cons obtain rest where rest: "cs = cutAtMarker marker cs @ rest"
      "rest = [] \<or> HasPrefix rest marker"
      "\<forall>k<length (cutAtMarker marker cs). \<not> HasPrefix (drop k cs) marker"
      by blast
    have "\<forall>k<length (cutAtMarker marker (c # cs)). \<not> HasPrefix (drop k (c # cs)) marker"
    proof (intro allI impI)
      fix k assume "k < length (cutAtMarker marker (c # cs))"
      with False rest(3) show "\<not> HasPrefix (drop k (c # cs)) marker"
        by (cases k) auto
    qed
    moreover from False rest(1) have "c # cs = cutAtMarker marker (c # cs) @ rest" by simp
    ultimately show ?thesis using rest(2) by blast
  qed
qed

subsection \<open>Split at a one-byte separator\<close>

lemma Split_Nil: "Split [] [n] = [[]]"
  by (simp add: Split.simps)

lemma Split_Cons:
  "Split (c # cs) [n] =
     (if c = n then [] # Split cs [n]
      else (c # hd (Split cs [n])) # tl (Split cs [n]))"
proof (cases "c = n")
  case True
  then have "Index (c # cs) [n] = 0" by (simp add: HasPrefix_def)
  then show ?thesis using True by (subst Split.simps) simp
next
  case False
  then have np: "\<not> HasPrefix (c # cs) [n]" by (simp add: HasPrefix_def)
  from Index_range [of cs "[n]"] show ?thesis
  proof
    assume neg: "Index cs [n] = - 1"
    with np have "Index (c # cs) [n] = - 1" by simp
    then have "Split (c # cs) [n] = [c # cs]" by (subst Split.simps) simp
    moreover from neg have "Split cs [n] = [cs]" by (subst Split.simps) simp
    ultimately show ?thesis using False by simp
  next
    assume nonneg: "0 \<le> Index cs [n]"
    then have ne: "Index cs [n] \<noteq> - 1" by simp
    with np have idx: "Index (c # cs) [n] = Index cs [n] + 1" by (simp add: Let_def)
    from nonneg have nat: "nat (Index cs [n] + 1) = Suc (nat (Index cs [n]))" by simp
    have "Split (c # cs) [n] =
            (c # take (nat (Index cs [n])) cs) # Split (drop (nat (Index cs [n]) + 1) cs) [n]"
      using nonneg np by (subst Split.simps) (simp add: idx nat)
    moreover have "Split cs [n] =
            take (nat (Index cs [n])) cs # Split (drop (nat (Index cs [n]) + 1) cs) [n]"
      using nonneg by (subst Split.simps) (simp add: Let_def)
    ultimately show ?thesis using False by simp
  qed
qed

lemma Split_not_Nil: "Split s [n] \<noteq> []"
  by (cases s) (simp_all add: Split_Nil Split_Cons)

lemma length_Split: "length (Split s [n]) = Suc (count_list s n)"
proof (induction s)
  case Nil
  then show ?case by (simp add: Split_Nil)
next
  case (Cons c cs)
  from Split_not_Nil [of cs n] have "length (tl (Split cs [n])) = length (Split cs [n]) - 1"
    by simp
  with Cons show ?case by (simp add: Split_Cons)
qed

lemma Split_lines:
  "concat (map (\<lambda>l. l @ [n]) (Split s [n])) = s @ [n]
   \<and> (\<forall>l\<in>set (Split s [n]). n \<notin> set l)"
proof (induction s)
  case Nil
  then show ?case by (simp add: Split_Nil)
next
  case (Cons c cs)
  obtain l ls where sp: "Split cs [n] = l # ls"
    using Split_not_Nil [of cs n] by (cases "Split cs [n]") auto
  with Cons show ?case by (simp add: Split_Cons)
qed

subsection \<open>TrimSpace trims once and for all\<close>

lemma HasPrefix_take: "HasPrefix (take k t) w \<Longrightarrow> HasPrefix t w"
  unfolding HasPrefix_def
  by (metis length_take min.cobounded1 min.absorb2 order_trans take_take min.commute)

lemma find_prefix_take:
  "find (HasPrefix t) ws = None \<Longrightarrow> find (HasPrefix (take k t)) ws = None"
  by (auto simp: find_None_iff dest: HasPrefix_take)

lemma TrimLeftSpace_no_lead: "find (HasPrefix (TrimLeftSpace s)) unicode_spaces = None"
proof (induction s rule: TrimLeftSpace.induct)
  case (1 s)
  show ?case
  proof (cases "find (HasPrefix s) unicode_spaces")
    case None
    then show ?thesis by (subst TrimLeftSpace.simps) simp
  next
    case (Some w)
    with 1 show ?thesis by (subst TrimLeftSpace.simps) simp
  qed
qed

lemma TrimRightSpace_no_trail: "find (HasSuffix (TrimRightSpace s)) unicode_spaces = None"
proof (induction s rule: TrimRightSpace.induct)
  case (1 s)
  show ?case
  proof (cases "find (HasSuffix s) unicode_spaces")
    case None
    then show ?thesis by (subst TrimRightSpace.simps) simp
  next
    case (Some w)
    with 1 show ?thesis by (subst TrimRightSpace.simps) simp
  qed
qed

lemma TrimRightSpace_keeps_no_lead:
  "find (HasPrefix s) unicode_spaces = None
   \<Longrightarrow> find (HasPrefix (TrimRightSpace s)) unicode_spaces = None"
proof (induction s rule: TrimRightSpace.induct)
  case (1 s)
  show ?case
  proof (cases "find (HasSuffix s) unicode_spaces")
    case None
    with 1 show ?thesis by (subst TrimRightSpace.simps) simp
  next
    case (Some w)
    with 1 show ?thesis by (subst TrimRightSpace.simps) (simp add: find_prefix_take)
  qed
qed

lemma TrimLeftSpace_id: "find (HasPrefix s) unicode_spaces = None \<Longrightarrow> TrimLeftSpace s = s"
  by (subst TrimLeftSpace.simps) simp

lemma TrimRightSpace_id: "find (HasSuffix s) unicode_spaces = None \<Longrightarrow> TrimRightSpace s = s"
  by (subst TrimRightSpace.simps) simp

lemma TrimSpace_idem: "TrimSpace (TrimSpace s) = TrimSpace s"
  by (simp add: TrimSpace_def TrimLeftSpace_id TrimRightSpace_id
      TrimRightSpace_keeps_no_lead TrimLeftSpace_no_lead TrimRightSpace_no_trail)

lemma TrimSpace_Nil: "TrimSpace [] = []"
  by code_simp

subsection \<open>The digest and its hexadecimal form\<close>


lemma Sum256_abc:
  "EncodeToString (Sum256 ''abc'')
     = ''ba7816bf8f01cfea414140de5dae2223b00361a396177a9cb410ff61f20015ad''"
  by code_simp













section \<open>Facts about the parser\<close>

subsection \<open>getLines\<close>

lemma stripLine_cut: "stripLine marker line = TrimSpace (cutAtMarker marker line)"
  by (simp add: stripLine_def Let_def cutAtMarker_Index)

lemma getLines_loop_map:
  "getLines_loop marker ls out = out @ map (stripLine marker) ls"
  by (induction ls arbitrary: out) simp_all

lemma getLines_trimmed: "l \<in> set (getLines conf marker) \<Longrightarrow> TrimSpace l = l"
  by (auto simp: getLines_def getLines_loop_map stripLine_cut TrimSpace_idem)

subsection \<open>getNameservers\<close>

lemma length_nameserverKey: "length nameserverKey = 10"
  by (simp add: nameserverKey_def)

lemma HasPrefix_nameserverKey: "HasPrefix line nameserverKey = isNameserverLine line"
proof -
  have "take 10 line = nameserverKey \<Longrightarrow> 10 \<le> length line"
  proof -
    assume "take 10 line = nameserverKey"
    then have "length (take 10 line) = 10" by (simp only: length_nameserverKey)
    then show ?thesis by simp
  qed
  moreover have "isNameserverLine line = (take 10 line = nameserverKey)"
    by (simp add: isNameserverLine_def nameserverKey_def)
  ultimately show ?thesis
    by (auto simp: HasPrefix_def length_nameserverKey)
qed

lemma value_of_nameserver_line:
  "HasPrefix line nameserverKey
   \<Longrightarrow> TrimSpace (TrimPrefix line nameserverKey) = nameserverValue line"
  by (simp add: TrimPrefix_def nameserverValue_def length_nameserverKey)

lemma getNameservers_loop_spec:
  "getNameservers_loop ParseIP i ls acc =
     (case firstInvalid ParseIP i ls of
        Some (j, v) \<Rightarrow> (None, Some (InvalidNameserver j v))
      | None \<Rightarrow> (Some (acc @ nameserverEntries ParseIP ls), None))"
proof (induction ls arbitrary: i acc)
  case Nil
  then show ?case by (simp add: nameserverEntries_def map_filter_simps)
next
  case (Cons l ls)
  show ?case
  proof (cases "isNameserverLine l")
    case False
    with Cons show ?thesis
      by (simp add: HasPrefix_nameserverKey nameserverEntries_def map_filter_simps
          split: option.split)
  next
    case True
    then have key: "HasPrefix l nameserverKey" by (simp add: HasPrefix_nameserverKey)
    show ?thesis
    proof (cases "ParseIP (nameserverValue l)")
      case None
      with True key show ?thesis by (simp add: value_of_nameserver_line)
    next
      case (Some ip)
      with True key Cons show ?thesis
        by (simp add: value_of_nameserver_line nameserverEntries_def map_filter_simps
            split: option.split)
    qed
  qed
qed

lemma getNameservers_spec:
  "getNameservers ParseIP conf =
     (case firstInvalid ParseIP 0 (getLines conf commentMark) of
        Some (j, v) \<Rightarrow> (None, Some (InvalidNameserver j v))
      | None \<Rightarrow> (Some (nameserverEntries ParseIP (getLines conf commentMark)), None))"
  by (simp add: getNameservers_def getNameservers_loop_spec split: option.split)

lemma firstInvalid_Some:
  "firstInvalid ParseIP i ls = Some (n, v)
   \<Longrightarrow> \<exists>j<length ls. n = i + j \<and> v = nameserverValue (ls ! j)
         \<and> isNameserverLine (ls ! j) \<and> ParseIP (nameserverValue (ls ! j)) = None
         \<and> (\<forall>m<j. isNameserverLine (ls ! m) \<longrightarrow> ParseIP (nameserverValue (ls ! m)) \<noteq> None)"
proof (induction ls arbitrary: i)
  case Nil
  then show ?case by simp
next
  case (Cons l ls)
  show ?case
  proof (cases "isNameserverLine l \<and> ParseIP (nameserverValue l) = None")
    case True
    with Cons.prems have "n = i" and "v = nameserverValue l" by simp_all
    with True show ?thesis by (intro exI [of _ 0]) simp
  next
    case False
    with Cons.prems have "firstInvalid ParseIP (i + 1) ls = Some (n, v)" by auto
    from Cons.IH [OF this] obtain j where j: "j < length ls" "n = i + 1 + j"
      "v = nameserverValue (ls ! j)" "isNameserverLine (ls ! j)"
      "ParseIP (nameserverValue (ls ! j)) = None"
      "\<forall>m<j. isNameserverLine (ls ! m) \<longrightarrow> ParseIP (nameserverValue (ls ! m)) \<noteq> None"
      by blast
    have "\<forall>m<Suc j. isNameserverLine ((l # ls) ! m)
            \<longrightarrow> ParseIP (nameserverValue ((l # ls) ! m)) \<noteq> None"
    proof (intro allI impI)
      fix m assume "m < Suc j" and "isNameserverLine ((l # ls) ! m)"
      with False j(6) show "ParseIP (nameserverValue ((l # ls) ! m)) \<noteq> None"
        by (cases m) auto
    qed
    with j show ?thesis by (intro exI [of _ "Suc j"]) simp
  qed
qed

lemma firstInvalid_exists:
  "k < length ls \<Longrightarrow> isNameserverLine (ls ! k) \<Longrightarrow> ParseIP (nameserverValue (ls ! k)) = None
   \<Longrightarrow> \<exists>n v. firstInvalid ParseIP i ls = Some (n, v) \<and> n \<le> i + k"
proof (induction ls arbitrary: i k)
  case Nil
  then show ?case by simp
next
  case (Cons l ls)
  show ?case
  proof (cases "isNameserverLine l \<and> ParseIP (nameserverValue l) = None")
    case True
    then show ?thesis by simp
  next
    case False
    with Cons.prems obtain k' where k': "k = Suc k'" by (cases k) auto
    with Cons.prems have "k' < length ls" "isNameserverLine (ls ! k')"
      "ParseIP (nameserverValue (ls ! k')) = None" by simp_all
    from Cons.IH [OF this, of "i + 1"] False k' show ?thesis by auto
  qed
qed

lemma firstInvalid_None:
  "firstInvalid ParseIP i ls = None
   \<longleftrightarrow> (\<forall>l\<in>set ls. isNameserverLine l \<longrightarrow> ParseIP (nameserverValue l) \<noteq> None)"
  by (induction ls arbitrary: i) auto

lemma nameserverEntries_none:
  "\<forall>l\<in>set ls. \<not> isNameserverLine l \<Longrightarrow> nameserverEntries ParseIP ls = []"
  by (induction ls) (simp_all add: nameserverEntries_def map_filter_simps)

lemma getNameservers_shape:
  "(\<exists>ns. getNameservers ParseIP conf = (Some ns, None))
   \<or> (\<exists>e. getNameservers ParseIP conf = (None, Some e))"
  by (simp add: getNameservers_spec split: option.split prod.split)

subsection \<open>getOptions\<close>

lemma option_line_not_nameserver:
  "HasPrefix l optionKey \<Longrightarrow> \<not> HasPrefix l nameserverKey"
  by (cases l) (auto simp: HasPrefix_def optionKey_def nameserverKey_def)

lemma getOptions_loop_filter:
  "\<forall>l\<in>set ls. TrimSpace l = l
   \<Longrightarrow> getOptions_loop ls acc = acc @ filter (\<lambda>l. HasPrefix l optionKey) ls"
proof (induction ls arbitrary: acc)
  case Nil
  then show ?case by simp
next
  case (Cons l ls)
  then show ?case
    by (simp add: TrimPrefix_def option_line_not_nameserver)
qed

lemma getOptions_filter:
  "getOptions conf = filter (\<lambda>l. HasPrefix l optionKey) (getLines conf commentMark)"
  by (simp add: getOptions_def getOptions_loop_filter getLines_trimmed)

section \<open>Facts about GetSpecific\<close>

lemma hashData_NewReader:
  "hashData (NewReader b) = (''sha256:'' @ EncodeToString (Sum256 b), None)"
  by (simp add: NewReader_def)

lemma GetSpecific_unreadable:
  "fs path = (data, Some e)
   \<Longrightarrow> GetSpecific ParseIP fs path s
       = ((None, Some e), s\<lparr>readFileCalls := readFileCalls s @ [path]\<rparr>)"
  by (simp add: GetSpecific_def ReadFile_def)

lemma GetSpecific_readable:
  "fs path = (resolv, None)
   \<Longrightarrow> GetSpecific ParseIP fs path s
       = ((case getNameservers ParseIP resolv of
             (nameservers, Some e) \<Rightarrow> (None, Some e)
           | (nameservers, None) \<Rightarrow>
               (Some \<lparr>Content = resolv,
                      Hash = ''sha256:'' @ EncodeToString (Sum256 resolv),
                      Nameservers = nameservers,
                      Options = getOptions resolv\<rparr>, None)),
          s\<lparr>readFileCalls := readFileCalls s @ [path]\<rparr>)"
  by (simp add: GetSpecific_def ReadFile_def hashData_NewReader split: prod.splits option.splits)


lemma GetSpecific_state:
  "snd (GetSpecific ParseIP fs path s) = s\<lparr>readFileCalls := readFileCalls s @ [path]\<rparr>"
  by (simp add: GetSpecific_def ReadFile_def split: prod.splits)

section \<open>Facts about Path\<close>

lemma alternatePath_neq_defaultPath: "alternatePath \<noteq> defaultPath"
  by (simp add: alternatePath_def defaultPath_def)

lemma detectSystemdResolvConf_eq:
  "detectSystemdResolvConf ParseIP fs s =
     (if stubResolverOnly ParseIP fs
      then s\<lparr>readFileCalls := readFileCalls s @ [defaultPath],
             pathAfterSystemdDetection := alternatePath\<rparr>
      else s\<lparr>readFileCalls := readFileCalls s @ [defaultPath]\<rparr>)"
  by (auto simp: detectSystemdResolvConf_def stubResolverOnly_def ReadFile_def elems_def
      split: prod.splits option.splits list.splits)

lemma stubResolverOnly_iff:
  "stubResolverOnly ParseIP fs \<longleftrightarrow>
     (\<exists>content ip. fs defaultPath = (content, None)
        \<and> getNameservers ParseIP content = (Some [ip], None) \<and> IsLoopback ip)"
  by (auto simp: stubResolverOnly_def split: prod.splits option.splits list.splits)

lemma Once_Do_done: "detectSystemdResolvConfOnce (Once_Do f s)"
  by (simp add: Once_Do_def)

lemma Once_Do_again: "detectSystemdResolvConfOnce s \<Longrightarrow> Once_Do f s = s"
  by (simp add: Once_Do_def)

lemma Path_first:
  "\<not> detectSystemdResolvConfOnce s \<Longrightarrow> pathAfterSystemdDetection s = defaultPath
   \<Longrightarrow> Path ParseIP fs s =
       (if stubResolverOnly ParseIP fs then alternatePath else defaultPath,
        s\<lparr>readFileCalls := readFileCalls s @ [defaultPath],
          pathAfterSystemdDetection :=
            (if stubResolverOnly ParseIP fs then alternatePath else defaultPath),
          detectSystemdResolvConfOnce := True\<rparr>)"
  by (simp add: Path_def Once_Do_def detectSystemdResolvConf_eq Let_def)

lemma Path_later:
  "detectSystemdResolvConfOnce s \<Longrightarrow> Path ParseIP fs s = (pathAfterSystemdDetection s, s)"
  by (simp add: Path_def Once_Do_again)

subsection \<open>The invariant of the interleaved calls\<close>

lemma pathInvariant_init: "pathInvariant initProcess"
  by (simp add: pathInvariant_def initProcess_def initState_def)

lemma pathInvariant_step:
  assumes "pathInvariant c"
  shows "pathInvariant (step ParseIP c ev)"
proof -
  obtain t fs where ev: "ev = (t, fs)" by (cases ev)
  show ?thesis
  proof (cases "threads c t")
    case Idle
    show ?thesis
    proof (cases "detectSystemdResolvConfOnce (vars c)")
      case True
      with assms Idle ev show ?thesis
        by (simp add: pathInvariant_def step_def Once_Do_again)
    next
      case False
      with assms have "readFileCalls (vars c) = []" "returned c = []"
        by (simp_all add: pathInvariant_def)
      with False Idle ev show ?thesis
        by (simp add: pathInvariant_def step_def Once_Do_def detectSystemdResolvConf_eq)
    qed
  next
    case AfterDo
    with assms have "detectSystemdResolvConfOnce (vars c)"
      by (auto simp: pathInvariant_def split: if_splits)
    with assms AfterDo ev show ?thesis
      by (simp add: pathInvariant_def step_def)
  qed
qed

lemma pathInvariant_run: "pathInvariant c \<Longrightarrow> pathInvariant (run ParseIP schedule c)"
  unfolding run_def
  by (induction schedule arbitrary: c) (simp_all add: pathInvariant_step)

lemma step_step_is_Path:
  "threads c t = Idle
   \<Longrightarrow> step ParseIP (step ParseIP c (t, fs)) (t, fs')
       = c\<lparr>vars := snd (Path ParseIP fs (vars c)),
           returned := returned c @ [fst (Path ParseIP fs (vars c))]\<rparr>"
  by (simp add: step_def Path_def Let_def fun_upd_idem)

section \<open>The functions run on the example files\<close>

lemma getLines_scenarioFile:
  "getLines scenarioFile commentMark = [''nameserver 8.8.8.8'', [], ''option ndots:0'']"
  by code_simp

lemma ParseIP_dotted_8_8_8_8: "ParseIP_dotted ''8.8.8.8'' = Some ip_8_8_8_8"
  by code_simp

lemma ParseIP_dotted_s: "ParseIP_dotted ''s'' = None"
  by code_simp

lemma getNameservers_scenarioFile:
  "getNameservers ParseIP_dotted scenarioFile = (Some [ip_8_8_8_8], None)"
  by code_simp




lemma getLines_single:
  "getLines ''nameserver8.8.8.8'' commentMark = [''nameserver8.8.8.8'']"
  "getLines ''nameservers'' commentMark = [''nameservers'']"
  by code_simp+

lemma nameserver_line_examples:
  "isNameserverLine ''nameserver8.8.8.8''" "nameserverValue ''nameserver8.8.8.8'' = ''8.8.8.8''"
  "isNameserverLine ''nameservers''" "nameserverValue ''nameservers'' = ''s''"
  by code_simp+

lemma getLines_invalidFile:
  "getLines invalidFile commentMark
     = [''nameserver 8.8.8.8'', ''nameserver bogus'', ''nameserver 300.1.1.1'']"
  by code_simp

lemma invalidFile_values:
  "TrimSpace (TrimPrefix ''nameserver 8.8.8.8'' nameserverKey) = ''8.8.8.8''"
  "TrimSpace (TrimPrefix ''nameserver bogus'' nameserverKey) = ''bogus''"
  "TrimSpace (TrimPrefix ''nameserver 300.1.1.1'' nameserverKey) = ''300.1.1.1''"
  "ParseIP_dotted ''bogus'' = None" "ParseIP_dotted ''300.1.1.1'' = None"
  "HasPrefix ''nameserver 300.1.1.1'' nameserverKey"
  by code_simp+

lemma getLines_searchOnlyFile:
  "getLines searchOnlyFile commentMark = [''search example.com'', []]"
  by code_simp

lemma loopback_examples:
  "ParseIP_dotted ''127.0.0.53'' = Some ip_127_0_0_53"
  "IsLoopback ip_127_0_0_53" "\<not> IsLoopback ip_8_8_8_8" "IsLoopback IPv6loopback"
  "getNameservers ParseIP_dotted stubFile = (Some [ip_127_0_0_53], None)"
  "getNameservers ParseIP_dotted twoServersFile = (Some [ip_127_0_0_53, ip_8_8_8_8], None)"
  by code_simp+

lemma stubResolverOnly_examples:
  "stubResolverOnly ParseIP_dotted (fileWith stubFile)"
  "\<not> stubResolverOnly ParseIP_dotted (fileWith twoServersFile)"
  "\<not> stubResolverOnly ParseIP_dotted (fileWith scenarioFile)"
  "\<not> stubResolverOnly ParseIP_dotted (fileWith searchOnlyFile)"
  "\<not> stubResolverOnly ParseIP_dotted (fileWith invalidFile)"
  "\<not> stubResolverOnly ParseIP_dotted noFile"
  by code_simp+

lemma error_examples:
  "snd (noFile defaultPath) \<noteq> None"
  "snd (fileWith invalidFile defaultPath) = None"
  "snd (getNameservers ParseIP_dotted (fst (fileWith invalidFile defaultPath))) \<noteq> None"
  by code_simp+

lemma threeCallers_run:
  "returned (run ParseIP_dotted threeCallers initProcess)
     = [alternatePath, alternatePath, alternatePath, alternatePath]"
  "readFileCalls (vars (run ParseIP_dotted threeCallers initProcess)) = [defaultPath]"
  by code_simp+

section \<open>The claims\<close>

text \<open>
  Claim C9. For every input string and every comment marker, \<open>getLines\<close> returns one
  element for each line of the input (the pieces between the newline characters, so one
  more than there are newlines), in the same order; each element is the line cut at the
  first occurrence of the marker, the marker and what follows it dropped, and then
  trimmed of leading and trailing white space. A blank line and a line that is only a
  comment stay in the sequence, as the empty string.
\<close>

theorem getLines_one_per_line:
  "getLines input commentMarker = StripCommentsAndBlank input commentMarker
   \<and> length (getLines input commentMarker) = Suc (count_list input (CHR 0x0A))
   \<and> getLines (''a'' @ [CHR 0x0A] @ [CHR 0x0A] @ ''  # c'' @ [CHR 0x0A] @ '' b #d'') ''#''
       = [''a'', [], [], ''b'']"
proof -
  have "getLines (''a'' @ [CHR 0x0A] @ [CHR 0x0A] @ ''  # c'' @ [CHR 0x0A] @ '' b #d'') ''#''
       = [''a'', [], [], ''b'']"
    by code_simp
  then show ?thesis
    by (simp add: getLines_def StripCommentsAndBlank_def getLines_loop_map stripLine_cut
        length_Split)
qed

text \<open>
  Claim C3. If a readable file has a line that is recognised as a nameserver entry and
  whose value is not an address, \<open>GetSpecific\<close> fails: it returns no snapshot and the
  error of \<open>getNameservers\<close>, which returns no list. The error carries the index
  (counted from 0) and the value of the first such line of the file: the lines before
  it that are nameserver entries all parse, and no later line is looked at.
\<close>

theorem GetSpecific_invalid_nameserver:
  assumes readable: "fs path = (content, None)"
    and k: "k < length (getLines content commentMark)"
    and key: "HasPrefix (getLines content commentMark ! k) nameserverKey"
    and bad: "ParseIP (TrimSpace (TrimPrefix (getLines content commentMark ! k) nameserverKey)) = None"
  shows "\<exists>j\<le>k.
           HasPrefix (getLines content commentMark ! j) nameserverKey
           \<and> ParseIP (TrimSpace (TrimPrefix (getLines content commentMark ! j) nameserverKey)) = None
           \<and> (\<forall>m<j. HasPrefix (getLines content commentMark ! m) nameserverKey
                 \<longrightarrow> ParseIP (TrimSpace (TrimPrefix (getLines content commentMark ! m) nameserverKey)) \<noteq> None)
           \<and> getNameservers ParseIP content
               = (None, Some (InvalidNameserver j
                   (TrimSpace (TrimPrefix (getLines content commentMark ! j) nameserverKey))))
           \<and> fst (GetSpecific ParseIP fs path s)
               = (None, Some (InvalidNameserver j
                   (TrimSpace (TrimPrefix (getLines content commentMark ! j) nameserverKey))))"
proof -
  let ?ls = "getLines content commentMark"
  have val: "\<And>l. HasPrefix l nameserverKey
      \<Longrightarrow> TrimSpace (TrimPrefix l nameserverKey) = nameserverValue l"
    by (rule value_of_nameserver_line)
  from key bad have "isNameserverLine (?ls ! k)" "ParseIP (nameserverValue (?ls ! k)) = None"
    by (simp_all add: HasPrefix_nameserverKey [symmetric] val)
  with k have "\<exists>n v. firstInvalid ParseIP 0 ?ls = Some (n, v) \<and> n \<le> 0 + k"
    by (intro firstInvalid_exists)
  then obtain n v where first: "firstInvalid ParseIP 0 ?ls = Some (n, v)" and "n \<le> k" by auto
  from firstInvalid_Some [OF first]
  have n: "n < length ?ls" "v = nameserverValue (?ls ! n)" "isNameserverLine (?ls ! n)"
      "ParseIP (nameserverValue (?ls ! n)) = None"
      "\<forall>m<n. isNameserverLine (?ls ! m) \<longrightarrow> ParseIP (nameserverValue (?ls ! m)) \<noteq> None"
    by auto
  from n(3) have keyn: "HasPrefix (?ls ! n) nameserverKey" by (simp add: HasPrefix_nameserverKey)
  have before: "\<forall>m<n. HasPrefix (?ls ! m) nameserverKey
      \<longrightarrow> ParseIP (TrimSpace (TrimPrefix (?ls ! m) nameserverKey)) \<noteq> None"
    using n(5) by (auto simp: HasPrefix_nameserverKey val [unfolded HasPrefix_nameserverKey])
  have ns: "getNameservers ParseIP content
      = (None, Some (InvalidNameserver n (TrimSpace (TrimPrefix (?ls ! n) nameserverKey))))"
    using first n(2) keyn by (simp add: getNameservers_spec val)
  have "fst (GetSpecific ParseIP fs path s)
      = (None, Some (InvalidNameserver n (TrimSpace (TrimPrefix (?ls ! n) nameserverKey))))"
    by (simp add: GetSpecific_readable [where fs = fs and path = path, OF readable] ns)
  with \<open>n \<le> k\<close> keyn n(4) before ns show ?thesis
    by (intro exI [of _ n]) (simp add: val)
qed

theorem GetSpecific_invalid_nameserver_witness:
  "getLines invalidFile commentMark
     = [''nameserver 8.8.8.8'', ''nameserver bogus'', ''nameserver 300.1.1.1'']
   \<and> ParseIP_dotted ''300.1.1.1'' = None
   \<and> (\<exists>j\<le>2.
         HasPrefix (getLines invalidFile commentMark ! j) nameserverKey
         \<and> ParseIP_dotted (TrimSpace (TrimPrefix (getLines invalidFile commentMark ! j) nameserverKey)) = None
         \<and> (\<forall>m<j. HasPrefix (getLines invalidFile commentMark ! m) nameserverKey
               \<longrightarrow> ParseIP_dotted (TrimSpace (TrimPrefix (getLines invalidFile commentMark ! m) nameserverKey)) \<noteq> None)
         \<and> getNameservers ParseIP_dotted invalidFile
             = (None, Some (InvalidNameserver j
                 (TrimSpace (TrimPrefix (getLines invalidFile commentMark ! j) nameserverKey))))
         \<and> fst (GetSpecific ParseIP_dotted (fileWith invalidFile) defaultPath initState)
             = (None, Some (InvalidNameserver j
                 (TrimSpace (TrimPrefix (getLines invalidFile commentMark ! j) nameserverKey)))))
   \<and> fst (GetSpecific ParseIP_dotted (fileWith invalidFile) defaultPath initState)
       = (None, Some (InvalidNameserver 1 ''bogus''))"
proof -
  have h1: "fileWith invalidFile defaultPath = (invalidFile, None)"
    by (simp add: fileWith_def)
  have h2: "2 < length (getLines invalidFile commentMark)"
    by (simp add: getLines_invalidFile)
  have h3: "HasPrefix (getLines invalidFile commentMark ! 2) nameserverKey"
    by (simp add: getLines_invalidFile invalidFile_values)
  have h4: "ParseIP_dotted (TrimSpace (TrimPrefix (getLines invalidFile commentMark ! 2) nameserverKey)) = None"
    by (simp add: getLines_invalidFile invalidFile_values)
  note ex = GetSpecific_invalid_nameserver
    [where fs = "fileWith invalidFile" and path = defaultPath and s = initState
       and content = invalidFile and k = 2 and ParseIP = ParseIP_dotted, OF h1 h2 h3 h4]
  have ns: "getNameservers ParseIP_dotted invalidFile
       = (None, Some (InvalidNameserver 1 ''bogus''))"
    by code_simp
  have run: "fst (GetSpecific ParseIP_dotted (fileWith invalidFile) defaultPath initState)
       = (None, Some (InvalidNameserver 1 ''bogus''))"
    using GetSpecific_readable [where ParseIP = ParseIP_dotted and s = initState
      and fs = "fileWith invalidFile" and path = defaultPath and resolv = invalidFile, OF h1]
    by (simp add: ns)
  from ex run getLines_invalidFile invalidFile_values(5) show ?thesis by blast
qed

text \<open>
  Claim C8. If no line of a readable file, comments stripped and trimmed, begins with the
  keyword \<open>nameserver\<close>, then \<open>GetSpecific\<close> succeeds and the field \<open>Nameservers\<close> of
  its snapshot is the empty (not the nil) slice.
\<close>

theorem GetSpecific_no_nameservers:
  assumes readable: "fs path = (content, None)"
    and none: "\<forall>l\<in>set (getLines content commentMark). \<not> HasPrefix l nameserverKey"
  shows "getNameservers ParseIP content = (Some [], None)
         \<and> fst (GetSpecific ParseIP fs path s)
             = (Some \<lparr>Content = content,
                      Hash = ''sha256:'' @ EncodeToString (Sum256 content),
                      Nameservers = Some [],
                      Options = getOptions content\<rparr>, None)"
proof -
  from none have no: "\<forall>l\<in>set (getLines content commentMark). \<not> isNameserverLine l"
    by (simp add: HasPrefix_nameserverKey)
  then have "firstInvalid ParseIP 0 (getLines content commentMark) = None"
    by (simp add: firstInvalid_None)
  with no have ns: "getNameservers ParseIP content = (Some [], None)"
    by (simp add: getNameservers_spec nameserverEntries_none)
  then show ?thesis by (simp add: GetSpecific_readable [where fs = fs and path = path, OF readable])
qed

theorem GetSpecific_no_nameservers_witness:
  "getLines searchOnlyFile commentMark = [''search example.com'', []]
   \<and> \<not> HasPrefix ''search example.com'' nameserverKey \<and> \<not> HasPrefix [] nameserverKey
   \<and> getNameservers ParseIP_dotted searchOnlyFile = (Some [], None)
   \<and> fst (GetSpecific ParseIP_dotted (fileWith searchOnlyFile) defaultPath initState)
       = (Some \<lparr>Content = searchOnlyFile,
                Hash = ''sha256:'' @ EncodeToString (Sum256 searchOnlyFile),
                Nameservers = Some [],
                Options = getOptions searchOnlyFile\<rparr>, None)"
proof -
  have h1: "fileWith searchOnlyFile defaultPath = (searchOnlyFile, None)"
    by (simp add: fileWith_def)
  have no: "\<not> HasPrefix ''search example.com'' nameserverKey" "\<not> HasPrefix [] nameserverKey"
    by code_simp+
  then have h2: "\<forall>l\<in>set (getLines searchOnlyFile commentMark). \<not> HasPrefix l nameserverKey"
    by (simp add: getLines_searchOnlyFile)
  from GetSpecific_no_nameservers
    [where fs = "fileWith searchOnlyFile" and path = defaultPath and s = initState
       and ParseIP = ParseIP_dotted and content = searchOnlyFile, OF h1 h2]
    getLines_searchOnlyFile no
  show ?thesis by blast
qed

text \<open>
  Claim C10. A line is a nameserver entry as soon as its first ten characters are
  \<open>nameserver\<close>; no white space is asked for behind the keyword. \<open>getNameservers\<close>
  is determined by that test alone: it fails at the first such line whose value (the
  line without the ten characters, trimmed) is not an address, and otherwise returns the
  addresses of all such lines. So the line \<open>nameserver8.8.8.8\<close> gives the address that
  \<open>8.8.8.8\<close> parses to, and the line \<open>nameservers\<close>, whose value \<open>s\<close> is not an
  address, makes \<open>getNameservers\<close> and \<open>GetSpecific\<close> fail.
\<close>

theorem nameserver_by_prefix_only:
  "getNameservers ParseIP conf =
     (case firstInvalid ParseIP 0 (getLines conf commentMark) of
        Some (j, v) \<Rightarrow> (None, Some (InvalidNameserver j v))
      | None \<Rightarrow> (Some (nameserverEntries ParseIP (getLines conf commentMark)), None))
   \<and> (ParseIP ''8.8.8.8'' = Some ip
        \<longrightarrow> getNameservers ParseIP ''nameserver8.8.8.8'' = (Some [ip], None))
   \<and> (ParseIP ''s'' = None
        \<longrightarrow> getNameservers ParseIP ''nameservers'' = (None, Some (InvalidNameserver 0 ''s''))
          \<and> fst (GetSpecific ParseIP (fileWith ''nameservers'') path s)
              = (None, Some (InvalidNameserver 0 ''s'')))"
proof (intro conjI impI)
  show "getNameservers ParseIP conf =
     (case firstInvalid ParseIP 0 (getLines conf commentMark) of
        Some (j, v) \<Rightarrow> (None, Some (InvalidNameserver j v))
      | None \<Rightarrow> (Some (nameserverEntries ParseIP (getLines conf commentMark)), None))"
    by (rule getNameservers_spec)
next
  assume "ParseIP ''8.8.8.8'' = Some ip"
  then show "getNameservers ParseIP ''nameserver8.8.8.8'' = (Some [ip], None)"
    by (simp add: getNameservers_spec getLines_single nameserver_line_examples
        nameserverEntries_def map_filter_simps)
next
  assume bad: "ParseIP ''s'' = None"
  then show ns: "getNameservers ParseIP ''nameservers'' = (None, Some (InvalidNameserver 0 ''s''))"
    by (simp add: getNameservers_spec getLines_single nameserver_line_examples)
  have "fileWith ''nameservers'' path = (''nameservers'', None)"
    by (simp add: fileWith_def)
  from GetSpecific_readable [where ParseIP = ParseIP and s = s
      and fs = "fileWith ''nameservers''" and path = path and resolv = "''nameservers''", OF this]
  show "fst (GetSpecific ParseIP (fileWith ''nameservers'') path s)
          = (None, Some (InvalidNameserver 0 ''s''))"
    by (simp add: ns)
qed

theorem nameserver_by_prefix_only_witness:
  "ParseIP_dotted ''8.8.8.8'' = Some ip_8_8_8_8
   \<and> getNameservers ParseIP_dotted ''nameserver8.8.8.8'' = (Some [ip_8_8_8_8], None)
   \<and> ParseIP_dotted ''s'' = None
   \<and> getNameservers ParseIP_dotted ''nameservers'' = (None, Some (InvalidNameserver 0 ''s''))
   \<and> fst (GetSpecific ParseIP_dotted (fileWith ''nameservers'') defaultPath initState)
       = (None, Some (InvalidNameserver 0 ''s''))"
proof -
  note inst = nameserver_by_prefix_only
    [of ParseIP_dotted scenarioFile ip_8_8_8_8 defaultPath initState]
  from inst have a: "ParseIP_dotted ''8.8.8.8'' = Some ip_8_8_8_8
        \<longrightarrow> getNameservers ParseIP_dotted ''nameserver8.8.8.8'' = (Some [ip_8_8_8_8], None)"
    by (rule conjunct1 [OF conjunct2])
  from inst have b: "ParseIP_dotted ''s'' = None
        \<longrightarrow> getNameservers ParseIP_dotted ''nameservers'' = (None, Some (InvalidNameserver 0 ''s''))
          \<and> fst (GetSpecific ParseIP_dotted (fileWith ''nameservers'') defaultPath initState)
              = (None, Some (InvalidNameserver 0 ''s''))"
    by (rule conjunct2 [OF conjunct2])
  from a b ParseIP_dotted_8_8_8_8 ParseIP_dotted_s show ?thesis by blast
qed

text \<open>
  Claim C1, as the code has it. \<open>getOptions\<close> removes the keyword \<open>nameserver\<close>, not
  the keyword \<open>option\<close>, from a line that begins with \<open>option\<close>; such a line never
  begins with \<open>nameserver\<close>, so nothing is removed. For the file of the scenario the
  options are \<open>["option ndots:0"]\<close>, not \<open>["ndots:0"]\<close>, and in general the options
  are the lines that begin with \<open>option\<close>, unchanged and in the order of the file.
\<close>

theorem getOptions_keeps_keyword:
  "getOptions scenarioFile = [''option ndots:0'']
   \<and> fst (GetSpecific ParseIP_dotted (fileWith scenarioFile) path s)
       = (Some \<lparr>Content = scenarioFile,
                Hash = ''sha256:'' @ EncodeToString (Sum256 scenarioFile),
                Nameservers = Some [ip_8_8_8_8],
                Options = [''option ndots:0'']\<rparr>, None)
   \<and> getOptions conf = filter (\<lambda>l. HasPrefix l optionKey) (getLines conf commentMark)"
proof -
  have opts: "getOptions scenarioFile = [''option ndots:0'']"
    by code_simp
  have "fileWith scenarioFile path = (scenarioFile, None)"
    by (simp add: fileWith_def)
  from GetSpecific_readable [where ParseIP = ParseIP_dotted and s = s
      and fs = "fileWith scenarioFile" and path = path and resolv = scenarioFile, OF this]
  have "fst (GetSpecific ParseIP_dotted (fileWith scenarioFile) path s)
       = (Some \<lparr>Content = scenarioFile,
                Hash = ''sha256:'' @ EncodeToString (Sum256 scenarioFile),
                Nameservers = Some [ip_8_8_8_8],
                Options = [''option ndots:0'']\<rparr>, None)"
    by (simp add: getNameservers_scenarioFile opts)
  with opts show ?thesis by (simp add: getOptions_filter)
qed

text \<open>
  Claim C2. The first call of \<open>Path\<close> in a process returns the alternate path
  \<open>/run/systemd/resolve/resolv.conf\<close> exactly when the default file can be read, its
  nameserver entries parse, and there is exactly one nameserver, a loopback address. In
  every other case (no nameserver, more than one, one that is not a loopback address, a
  read error, a parse error) it returns the default path \<open>/etc/resolv.conf\<close>. A later
  call returns what the first call decided, from the file as it was then.
\<close>

theorem Path_alternate_iff:
  "fst (Path ParseIP fs initState)
     = (if stubResolverOnly ParseIP fs then alternatePath else defaultPath)
   \<and> fst (Path ParseIP' fs' (snd (Path ParseIP fs initState)))
     = (if stubResolverOnly ParseIP fs then alternatePath else defaultPath)
   \<and> alternatePath \<noteq> defaultPath
   \<and> stubResolverOnly ParseIP fs
       = (\<exists>content ip. fs defaultPath = (content, None)
            \<and> getNameservers ParseIP content = (Some [ip], None) \<and> IsLoopback ip)"
proof -
  have first: "Path ParseIP fs initState
      = (if stubResolverOnly ParseIP fs then alternatePath else defaultPath,
         \<lparr>detectSystemdResolvConfOnce = True,
          pathAfterSystemdDetection =
            (if stubResolverOnly ParseIP fs then alternatePath else defaultPath),
          readFileCalls = [defaultPath]\<rparr>)"
    by (simp add: Path_first initState_def)
  then have "fst (Path ParseIP' fs' (snd (Path ParseIP fs initState)))
      = (if stubResolverOnly ParseIP fs then alternatePath else defaultPath)"
    by (simp add: Path_later)
  with first show ?thesis
    by (simp add: alternatePath_neq_defaultPath stubResolverOnly_iff)
qed

theorem Path_alternate_iff_witness:
  "fst (Path ParseIP_dotted (fileWith stubFile) initState) = alternatePath
   \<and> fst (Path ParseIP_dotted (fileWith twoServersFile) initState) = defaultPath
   \<and> fst (Path ParseIP_dotted (fileWith scenarioFile) initState) = defaultPath
   \<and> fst (Path ParseIP_dotted (fileWith searchOnlyFile) initState) = defaultPath
   \<and> fst (Path ParseIP_dotted (fileWith invalidFile) initState) = defaultPath
   \<and> fst (Path ParseIP_dotted noFile initState) = defaultPath"
  using Path_alternate_iff [of ParseIP_dotted "fileWith stubFile" ParseIP_dotted noFile]
    Path_alternate_iff [of ParseIP_dotted "fileWith twoServersFile" ParseIP_dotted noFile]
    Path_alternate_iff [of ParseIP_dotted "fileWith scenarioFile" ParseIP_dotted noFile]
    Path_alternate_iff [of ParseIP_dotted "fileWith searchOnlyFile" ParseIP_dotted noFile]
    Path_alternate_iff [of ParseIP_dotted "fileWith invalidFile" ParseIP_dotted noFile]
    Path_alternate_iff [of ParseIP_dotted noFile ParseIP_dotted noFile]
  by (simp only: stubResolverOnly_examples if_True if_False simp_thms)

text \<open>
  Claim C4. \<open>Path\<close> returns a string and nothing else. If the default file cannot be
  read, or its nameserver entries do not parse, the first call returns the default path;
  the error is dropped. The detection counts as done, and the file was read once.
\<close>

theorem Path_swallows_errors:
  assumes "snd (fs defaultPath) \<noteq> None
           \<or> snd (getNameservers ParseIP (fst (fs defaultPath))) \<noteq> None"
  shows "Path ParseIP fs initState
         = (defaultPath,
            \<lparr>detectSystemdResolvConfOnce = True,
             pathAfterSystemdDetection = defaultPath,
             readFileCalls = [defaultPath]\<rparr>)"
proof -
  from assms have "\<not> stubResolverOnly ParseIP fs"
    by (auto simp: stubResolverOnly_def split: prod.splits option.splits list.splits)
  then show ?thesis by (simp add: Path_first initState_def)
qed

theorem Path_swallows_errors_witness:
  "snd (noFile defaultPath) \<noteq> None
   \<and> Path ParseIP_dotted noFile initState
       = (defaultPath,
          \<lparr>detectSystemdResolvConfOnce = True,
           pathAfterSystemdDetection = defaultPath,
           readFileCalls = [defaultPath]\<rparr>)
   \<and> snd (fileWith invalidFile defaultPath) = None
   \<and> snd (getNameservers ParseIP_dotted (fst (fileWith invalidFile defaultPath))) \<noteq> None
   \<and> Path ParseIP_dotted (fileWith invalidFile) initState
       = (defaultPath,
          \<lparr>detectSystemdResolvConfOnce = True,
           pathAfterSystemdDetection = defaultPath,
           readFileCalls = [defaultPath]\<rparr>)"
proof -
  have a: "snd (noFile defaultPath) \<noteq> None
           \<or> snd (getNameservers ParseIP_dotted (fst (noFile defaultPath))) \<noteq> None"
    using error_examples(1) by (rule disjI1)
  have b: "snd (fileWith invalidFile defaultPath) \<noteq> None
           \<or> snd (getNameservers ParseIP_dotted (fst (fileWith invalidFile defaultPath))) \<noteq> None"
    using error_examples(3) by (rule disjI2)
  from Path_swallows_errors [of noFile ParseIP_dotted, OF a]
    Path_swallows_errors [of "fileWith invalidFile" ParseIP_dotted, OF b]
    error_examples
  show ?thesis by blast
qed

text \<open>
  Claim C5. The path is computed at most once in a process. Sequentially: a call of
  \<open>Path\<close> that follows a completed call returns the same string and leaves the state
  as it is, so it reads no file, whatever the files hold by then; and \<open>GetSpecific\<close>
  does not touch the two variables. Concurrently, with \<open>sync.Once.Do\<close> as one atomic
  step: after any interleaving of the steps of any number of callers, started in a
  fresh process, all values returned so far are the same string, the value of the
  variable, and \<open>ioutil.ReadFile\<close> was called at most once by them.
\<close>

theorem Path_computed_once:
  "Path ParseIP' fs' (snd (Path ParseIP fs s)) = Path ParseIP fs s
   \<and> detectSystemdResolvConfOnce (snd (Path ParseIP fs s))
   \<and> pathAfterSystemdDetection (snd (GetSpecific ParseIP fs path s)) = pathAfterSystemdDetection s
   \<and> detectSystemdResolvConfOnce (snd (GetSpecific ParseIP fs path s)) = detectSystemdResolvConfOnce s
   \<and> (\<forall>p\<in>set (returned (run ParseIP schedule initProcess)).
         p = pathAfterSystemdDetection (vars (run ParseIP schedule initProcess)))
   \<and> length (readFileCalls (vars (run ParseIP schedule initProcess))) \<le> 1"
proof -
  have ran: "detectSystemdResolvConfOnce (snd (Path ParseIP fs s))"
    by (simp add: Path_def Once_Do_done Let_def)
  have "Path ParseIP' fs' (snd (Path ParseIP fs s))
        = (pathAfterSystemdDetection (snd (Path ParseIP fs s)), snd (Path ParseIP fs s))"
    using ran by (rule Path_later)
  also have "\<dots> = Path ParseIP fs s"
    by (simp add: Path_def Let_def)
  finally have again: "Path ParseIP' fs' (snd (Path ParseIP fs s)) = Path ParseIP fs s" .
  have "pathInvariant (run ParseIP schedule initProcess)"
    by (rule pathInvariant_run [OF pathInvariant_init])
  then have "\<forall>p\<in>set (returned (run ParseIP schedule initProcess)).
         p = pathAfterSystemdDetection (vars (run ParseIP schedule initProcess))"
    and "length (readFileCalls (vars (run ParseIP schedule initProcess))) \<le> 1"
    by (auto simp: pathInvariant_def list_all_iff split: if_splits)
  with ran again show ?thesis by (simp add: GetSpecific_state)
qed

theorem Path_computed_once_witness:
  "returned (run ParseIP_dotted threeCallers initProcess)
     = [alternatePath, alternatePath, alternatePath, alternatePath]
   \<and> pathAfterSystemdDetection (vars (run ParseIP_dotted threeCallers initProcess)) = alternatePath
   \<and> readFileCalls (vars (run ParseIP_dotted threeCallers initProcess)) = [defaultPath]
   \<and> Path ParseIP_dotted noFile (snd (Path ParseIP_dotted (fileWith stubFile) initState))
       = Path ParseIP_dotted (fileWith stubFile) initState"
proof -
  note inst = Path_computed_once
    [of ParseIP_dotted noFile ParseIP_dotted "fileWith stubFile" initState defaultPath threeCallers]
  from inst have "\<forall>p\<in>set (returned (run ParseIP_dotted threeCallers initProcess)).
         p = pathAfterSystemdDetection (vars (run ParseIP_dotted threeCallers initProcess))"
    by blast
  then have "pathAfterSystemdDetection (vars (run ParseIP_dotted threeCallers initProcess))
      = alternatePath"
    by (simp add: threeCallers_run)
  moreover from inst
  have "Path ParseIP_dotted noFile (snd (Path ParseIP_dotted (fileWith stubFile) initState))
       = Path ParseIP_dotted (fileWith stubFile) initState"
    by blast
  ultimately show ?thesis by (simp add: threeCallers_run)
qed



text \<open>
  Claim C7. \<open>GetSpecific\<close> returns an error or a snapshot, never both and never
  neither. If the file cannot be read it returns that error and no snapshot; if the
  nameservers do not parse it returns that error and no snapshot; the reader that
  \<open>hashData\<close> is given never fails (a failing reader would make \<open>hashData\<close> return the
  empty string and the error). In the remaining case there is no error, and the four
  fields of the snapshot come from the bytes of one call of \<open>ioutil.ReadFile\<close>, the
  only call made: the bytes, their hash, the nameserver slice (not nil) and the options.
\<close>

theorem GetSpecific_error_or_snapshot:
  "(fst (fst (GetSpecific ParseIP fs path s)) = None)
     = (snd (fst (GetSpecific ParseIP fs path s)) \<noteq> None)
   \<and> (snd (fs path) \<noteq> None
        \<longrightarrow> fst (GetSpecific ParseIP fs path s) = (None, snd (fs path)))
   \<and> (snd (fs path) = None \<and> snd (getNameservers ParseIP (fst (fs path))) \<noteq> None
        \<longrightarrow> fst (GetSpecific ParseIP fs path s)
            = (None, snd (getNameservers ParseIP (fst (fs path)))))
   \<and> (snd (fs path) = None \<and> snd (getNameservers ParseIP (fst (fs path))) = None
        \<longrightarrow> fst (GetSpecific ParseIP fs path s)
              = (Some \<lparr>Content = fst (fs path),
                        Hash = ''sha256:'' @ EncodeToString (Sum256 (fst (fs path))),
                        Nameservers = fst (getNameservers ParseIP (fst (fs path))),
                        Options = getOptions (fst (fs path))\<rparr>, None)
            \<and> fst (getNameservers ParseIP (fst (fs path))) \<noteq> None)
   \<and> readFileCalls (snd (GetSpecific ParseIP fs path s)) = readFileCalls s @ [path]
   \<and> snd (hashData (NewReader b)) = None
   \<and> hashData (Reader b (Some e)) = ([], Some e)"
proof (cases "fs path")
  case (Pair data err)
  show ?thesis
  proof (cases err)
    case (Some e')
    with Pair show ?thesis
      by (simp add: GetSpecific_unreadable [where fs = fs and path = path and data = data and e = e']
          hashData_NewReader)
  next
    case None
    with Pair have readable: "fs path = (data, None)" by simp
    note run = GetSpecific_readable [where fs = fs and path = path and resolv = data
        and ParseIP = ParseIP and s = s, OF readable]
    from getNameservers_shape [of ParseIP data] show ?thesis
    proof (elim disjE exE)
      fix ns assume "getNameservers ParseIP data = (Some ns, None)"
      with run readable show ?thesis by (simp add: hashData_NewReader)
    next
      fix e' assume "getNameservers ParseIP data = (None, Some e')"
      with run readable show ?thesis by (simp add: hashData_NewReader)
    qed
  qed
qed

theorem GetSpecific_error_or_snapshot_witness:
  "fst (GetSpecific ParseIP_dotted noFile defaultPath initState)
     = (None, Some (OSError defaultPath))
   \<and> fst (GetSpecific ParseIP_dotted (fileWith invalidFile) defaultPath initState)
     = (None, Some (InvalidNameserver 1 ''bogus''))
   \<and> fst (GetSpecific ParseIP_dotted (fileWith scenarioFile) defaultPath initState)
     = (Some \<lparr>Content = scenarioFile,
              Hash = ''sha256:'' @ EncodeToString (Sum256 scenarioFile),
              Nameservers = Some [ip_8_8_8_8],
              Options = getOptions scenarioFile\<rparr>, None)"
proof -
  note a = GetSpecific_error_or_snapshot
    [of ParseIP_dotted noFile defaultPath initState "[]" "OSError []"]
  note b = GetSpecific_error_or_snapshot
    [of ParseIP_dotted "fileWith invalidFile" defaultPath initState "[]" "OSError []"]
  note c = GetSpecific_error_or_snapshot
    [of ParseIP_dotted "fileWith scenarioFile" defaultPath initState "[]" "OSError []"]
  have ns: "getNameservers ParseIP_dotted invalidFile = (None, Some (InvalidNameserver 1 ''bogus''))"
    by code_simp
  from a have "fst (GetSpecific ParseIP_dotted noFile defaultPath initState)
     = (None, Some (OSError defaultPath))"
    by (simp add: noFile_def)
  moreover from b have "fst (GetSpecific ParseIP_dotted (fileWith invalidFile) defaultPath initState)
     = (None, Some (InvalidNameserver 1 ''bogus''))"
    by (simp add: fileWith_def ns)
  moreover from c have "fst (GetSpecific ParseIP_dotted (fileWith scenarioFile) defaultPath initState)
     = (Some \<lparr>Content = scenarioFile,
              Hash = ''sha256:'' @ EncodeToString (Sum256 scenarioFile),
              Nameservers = Some [ip_8_8_8_8],
              Options = getOptions scenarioFile\<rparr>, None)"
    by (simp add: fileWith_def getNameservers_scenarioFile)
  ultimately show ?thesis by simp
qed

end
